theory Spec2Isabelle
  imports Complex_Main "HOL-Library.Multiset"
begin

section \<open>Values shared by the three stages\<close>

text \<open>
  The pipeline handles Python values of a few kinds. Finite floating point numbers are
  modelled by rationals; no claim below depends on rounding. Python's \<open>None\<close> and the
  floating point NaN, which pandas treats alike as a missing entry, are one value.
  Strings are ASCII texts.
\<close>

text \<open>A number of a table: finite, or one of the two infinities of floating point.\<close>

datatype number = Fin rat | PosInf | NegInf

datatype exn =
  KeyError string
  | IndexError
  | TypeError
  | AttributeError
  | RequestException

text \<open>An entry of a table: missing (None / NaN / NA), a number, or a text.\<close>

datatype cell = Null | Num number | Str string

subsection \<open>String operations\<close>

definition lower_char :: "char \<Rightarrow> char" where
  "lower_char c =
     (case map_of (zip ''ABCDEFGHIJKLMNOPQRSTUVWXYZ'' ''abcdefghijklmnopqrstuvwxyz'') c of
        Some d \<Rightarrow> d
      | None \<Rightarrow> c)"

text \<open>\<^verbatim>\<open>s.lower()\<close>\<close>

definition lower :: "string \<Rightarrow> string" where
  "lower s = map lower_char s"

text \<open>\<^verbatim>\<open>s.startswith(p)\<close>\<close>

fun startswith :: "string \<Rightarrow> string \<Rightarrow> bool" where
  "startswith s [] = True"
| "startswith [] (p # ps) = False"
| "startswith (c # cs) (p # ps) = (c = p \<and> startswith cs ps)"

text \<open>\<^verbatim>\<open>sub in s\<close>: \<open>sub\<close> occurs in \<open>s\<close> as a contiguous piece.\<close>

fun contains :: "string \<Rightarrow> string \<Rightarrow> bool" where
  "contains sub [] = (sub = [])"
| "contains sub (c # cs) = (startswith (c # cs) sub \<or> contains sub cs)"

section \<open>The Cleaner: \<^verbatim>\<open>src/data_cleaning.py\<close>\<close>

subsection \<open>Tables\<close>

text \<open>
  A DataFrame has an ordered list of column labels and a list of rows. A row gives the
  entry under each label; only the labels listed in \<open>columns\<close> belong to the table.
  Column labels are distinct, as \<^verbatim>\<open>read_csv\<close> makes them.
\<close>

record frame =
  columns :: "string list"
  rows :: "(string \<Rightarrow> cell) list"

text \<open>\<^verbatim>\<open>df.empty\<close>: one of the two axes has length 0.\<close>

definition empty :: "frame \<Rightarrow> bool" where
  "empty df = (rows df = [] \<or> columns df = [])"

text \<open>\<^verbatim>\<open>df[c]\<close> raises KeyError for a label that is not a column.\<close>

definition getitem :: "frame \<Rightarrow> string \<Rightarrow> exn + cell list" where
  "getitem df c =
     (if c \<in> set (columns df) then Inr (map (\<lambda>r. r c) (rows df)) else Inl (KeyError c))"

text \<open>
  \<^verbatim>\<open>df[c] = series\<close> overwrites the column \<open>c\<close>, or appends it as the last column
  when the table has none. The series has one entry per row.
\<close>

definition setitem :: "frame \<Rightarrow> string \<Rightarrow> cell list \<Rightarrow> frame" where
  "setitem df c s =
     \<lparr>columns = (if c \<in> set (columns df) then columns df else columns df @ [c]),
      rows = map (\<lambda>(r, v). r(c := v)) (zip (rows df) s)\<rparr>"

text \<open>\<^verbatim>\<open>df[c] = value\<close> with a scalar: the same entry in every row.\<close>

definition setitem_scalar :: "frame \<Rightarrow> string \<Rightarrow> cell \<Rightarrow> frame" where
  "setitem_scalar df c v = setitem df c (replicate (length (rows df)) v)"

subsection \<open>Series operations of pandas\<close>

text \<open>\<^verbatim>\<open>series.fillna(v)\<close>\<close>

definition fillna :: "cell list \<Rightarrow> cell \<Rightarrow> cell list" where
  "fillna s v = map (\<lambda>x. if x = Null then v else x) s"

text \<open>\<^verbatim>\<open>series.replace(mapping)\<close> with a dict of texts: an entry equal to a key becomes
  the key's value, every other entry stays.\<close>

definition replace_cell :: "(string \<times> string) list \<Rightarrow> cell \<Rightarrow> cell" where
  "replace_cell m x =
     (case x of
        Str s \<Rightarrow> (case map_of m s of Some t \<Rightarrow> Str t | None \<Rightarrow> Str s)
      | _ \<Rightarrow> x)"

definition replace :: "cell list \<Rightarrow> (string \<times> string) list \<Rightarrow> cell list" where
  "replace s m = map (replace_cell m) s"

text \<open>
  \<^verbatim>\<open>pd.to_numeric(series, errors='coerce')\<close> gives a float series: a number stays, a
  text that pandas reads as a number becomes that number, anything else becomes NaN.
  Which texts pandas reads as numbers, and as which, is a parameter, \<open>parse\<close>. An entry
  of a float series is a number or NaN (\<open>None\<close>).
\<close>

definition to_numeric_cell :: "(string \<Rightarrow> number option) \<Rightarrow> cell \<Rightarrow> number option" where
  "to_numeric_cell parse x = (case x of Null \<Rightarrow> None | Num q \<Rightarrow> Some q | Str s \<Rightarrow> parse s)"

definition to_numeric :: "(string \<Rightarrow> number option) \<Rightarrow> cell list \<Rightarrow> number option list" where
  "to_numeric parse s = map (to_numeric_cell parse) s"

text \<open>Whole numbers; an infinity is none.\<close>

fun integral :: "number \<Rightarrow> bool" where
  "integral (Fin q) = (of_int \<lfloor>q\<rfloor> = q)"
| "integral PosInf = False"
| "integral NegInf = False"

declare integral.simps(1) [simp del]

text \<open>
  \<^verbatim>\<open>floats.astype('Int64')\<close>: NaN becomes NA; an entry that is not a whole number makes
  pandas raise TypeError (cannot safely cast non-equivalent float64 to int64).
\<close>

definition astype_Int64 :: "number option list \<Rightarrow> exn + number option list" where
  "astype_Int64 s =
     (if list_all (\<lambda>x. case x of None \<Rightarrow> True | Some q \<Rightarrow> integral q) s then Inr s
      else Inl TypeError)"

definition float_cell :: "number option \<Rightarrow> cell" where
  "float_cell x = (case x of None \<Rightarrow> Null | Some q \<Rightarrow> Num q)"

text \<open>
  \<^verbatim>\<open>df.drop_duplicates()\<close> returns a new table with, of the rows that agree in every
  column, the first one only.
\<close>

fun keep_first :: "('a \<Rightarrow> 'k) \<Rightarrow> 'k list \<Rightarrow> 'a list \<Rightarrow> 'a list" where
  "keep_first key seen [] = []"
| "keep_first key seen (x # xs) =
     (if key x \<in> set seen then keep_first key seen xs
      else x # keep_first key (key x # seen) xs)"

definition drop_duplicates :: "frame \<Rightarrow> frame" where
  "drop_duplicates df = df\<lparr>rows := keep_first (\<lambda>r. map r (columns df)) [] (rows df)\<rparr>"

subsection \<open>The statements of \<^verbatim>\<open>clean_data\<close>\<close>

definition country_mapping :: "(string \<times> string) list" where
  "country_mapping =
     [(''United States'', ''United States of America''),
      (''USA'', ''United States of America''),
      (''US'', ''United States of America''),
      (''UK'', ''United Kingdom''),
      (''Great Britain'', ''United Kingdom''),
      (''Republic of Korea'', ''South Korea''),
      (''Korea, Rep.'', ''South Korea''),
      (''Korea, Dem. Rep.'', ''North Korea''),
      (''Congo, Dem. Rep.'', ''Democratic Republic of the Congo''),
      (''Congo, Rep.'', ''Republic of Congo''),
      (''Viet Nam'', ''Vietnam''),
      (''Russian Federation'', ''Russia''),
      (''Iran, Islamic Rep.'', ''Iran''),
      (''Egypt, Arab Rep.'', ''Egypt''),
      (''Hong Kong SAR, China'', ''Hong Kong''),
      (''Macao SAR, China'', ''Macao'')]"

text \<open>Line 73: \<^verbatim>\<open>cleaned_df['Country'] = cleaned_df['Country'].fillna('Unknown')\<close>\<close>

definition fill_country :: "frame \<Rightarrow> exn + frame" where
  "fill_country df =
     (case getitem df ''Country'' of
        Inl e \<Rightarrow> Inl e
      | Inr s \<Rightarrow> Inr (setitem df ''Country'' (fillna s (Str ''Unknown''))))"

text \<open>Line 105: \<^verbatim>\<open>cleaned_df['Country'] = cleaned_df['Country'].replace(country_mapping)\<close>\<close>

definition standardize_country :: "frame \<Rightarrow> exn + frame" where
  "standardize_country df =
     (case getitem df ''Country'' of
        Inl e \<Rightarrow> Inl e
      | Inr s \<Rightarrow> Inr (setitem df ''Country'' (replace s country_mapping)))"

text \<open>Line 109: \<^verbatim>\<open>cleaned_df['Value'] = pd.to_numeric(cleaned_df['Value'], errors='coerce')\<close>\<close>

definition coerce_value :: "(string \<Rightarrow> number option) \<Rightarrow> frame \<Rightarrow> exn + frame" where
  "coerce_value parse df =
     (case getitem df ''Value'' of
        Inl e \<Rightarrow> Inl e
      | Inr s \<Rightarrow> Inr (setitem df ''Value'' (map float_cell (to_numeric parse s))))"

text \<open>Lines 112 and 113: the Year column, when there is one, becomes nullable integers.\<close>

definition coerce_year :: "(string \<Rightarrow> number option) \<Rightarrow> frame \<Rightarrow> exn + frame" where
  "coerce_year parse df =
     (if ''Year'' \<in> set (columns df) then
        (case getitem df ''Year'' of
           Inl e \<Rightarrow> Inl e
         | Inr s \<Rightarrow>
             (case astype_Int64 (to_numeric parse s) of
                Inl e \<Rightarrow> Inl e
              | Inr ys \<Rightarrow> Inr (setitem df ''Year'' (map float_cell ys))))
      else Inr df)"

text \<open>Line 116: the time stamp; the clock's reading \<open>now\<close> is a parameter.\<close>

definition stamp :: "string \<Rightarrow> frame \<Rightarrow> exn + frame" where
  "stamp now df = Inr (setitem_scalar df ''processed_at'' (Str now))"

text \<open>Lines 132 to 137: the label chosen from the lower-cased indicator name.\<close>

definition connection_type :: "string \<Rightarrow> string" where
  "connection_type name_lower =
     (if contains ''fixed'' name_lower then ''fixed-line''
      else if contains ''mobile'' name_lower then ''mobile''
      else ''unknown'')"

text \<open>\<^verbatim>\<open>x.lower()\<close> on a table entry: only a text has the method.\<close>

definition cell_lower :: "cell \<Rightarrow> exn + string" where
  "cell_lower x = (case x of Str s \<Rightarrow> Inr (lower s) | _ \<Rightarrow> Inl AttributeError)"

subsection \<open>Objects and \<^verbatim>\<open>clean_data\<close>\<close>

text \<open>
  Tables are mutable objects. The store lists the tables allocated so far; a reference
  is a position in it, and a new object takes the next free position. A statement
  either raises, leaving the store as the statement found it, or completes.
\<close>

type_synonym heap = "frame list"

text \<open>\<^verbatim>\<open>df.copy()\<close> allocates a table with the same columns and rows.\<close>

definition copy :: "nat \<Rightarrow> heap \<Rightarrow> nat \<times> heap" where
  "copy a h = (length h, h @ [h ! a])"

text \<open>A statement that assigns to a column of the table at \<open>c\<close>, in place.\<close>

definition inplace :: "nat \<Rightarrow> (frame \<Rightarrow> exn + frame) \<Rightarrow> heap \<Rightarrow> (exn + unit) \<times> heap" where
  "inplace c stmt h =
     (case stmt (h ! c) of
        Inl e \<Rightarrow> (Inl e, h)
      | Inr df \<Rightarrow> (Inr (), h[c := df]))"

text \<open>Sequencing: an exception ends the run with the store of that moment.\<close>

definition bnd ::
  "(heap \<Rightarrow> (exn + 'a) \<times> heap) \<Rightarrow> ('a \<Rightarrow> heap \<Rightarrow> (exn + 'b) \<times> heap) \<Rightarrow> heap \<Rightarrow> (exn + 'b) \<times> heap"
where
  "bnd m k h = (case m h of (Inl e, h') \<Rightarrow> (Inl e, h') | (Inr x, h') \<Rightarrow> k x h')"

text \<open>Line 121: \<^verbatim>\<open>cleaned_df = cleaned_df.drop_duplicates()\<close> binds the name to a new table.\<close>

definition drop_duplicates_new :: "nat \<Rightarrow> heap \<Rightarrow> (exn + nat) \<times> heap" where
  "drop_duplicates_new c h = (Inr (length h), h @ [drop_duplicates (h ! c)])"

text \<open>Lines 126 to 137, on the table at \<open>d\<close>.\<close>

definition tag_indicator :: "nat \<Rightarrow> heap \<Rightarrow> (exn + unit) \<times> heap" where
  "tag_indicator d h =
     (if ''Indicator'' \<in> set (columns (h ! d)) then
        (let indicator_name =
               (if \<not> empty (h ! d) then hd (rows (h ! d)) ''Indicator'' else Str ''Unknown'');
             h1 = h[d := setitem_scalar (h ! d) ''indicator_clean'' indicator_name]
         in case cell_lower indicator_name of
              Inl e \<Rightarrow> (Inl e, h1)
            | Inr l \<Rightarrow>
                (Inr (), h1[d := setitem_scalar (h1 ! d) ''connection_type''
                                   (Str (connection_type l))]))
      else (Inr (), h))"

text \<open>
  \<^verbatim>\<open>clean_data(df)\<close>. The argument is None or a reference; the result is an exception,
  None, or the reference of the cleaned table, together with the store.
\<close>

definition clean_data ::
  "string \<Rightarrow> (string \<Rightarrow> number option) \<Rightarrow> nat option \<Rightarrow> heap \<Rightarrow> (exn + nat option) \<times> heap"
where
  "clean_data now parse df h =
     (case df of
        None \<Rightarrow> (Inr None, h)
      | Some a \<Rightarrow>
          if empty (h ! a) then (Inr None, h)
          else
            (let (c, h0) = copy a h in
             bnd (inplace c fill_country) (\<lambda>_.
             bnd (inplace c standardize_country) (\<lambda>_.
             bnd (inplace c (coerce_value parse)) (\<lambda>_.
             bnd (inplace c (coerce_year parse)) (\<lambda>_.
             bnd (inplace c (stamp now)) (\<lambda>_.
             bnd (drop_duplicates_new c) (\<lambda>d.
             bnd (tag_indicator d) (\<lambda>_ h'.
             (Inr (Some d), h')))))))) h0))"

text \<open>A table written out by rows, for examples: the labels and one list of entries per row.\<close>

definition row_of :: "string list \<Rightarrow> cell list \<Rightarrow> string \<Rightarrow> cell" where
  "row_of cs vs c = (case map_of (zip cs vs) c of Some v \<Rightarrow> v | None \<Rightarrow> Null)"

definition DataFrame :: "string list \<Rightarrow> cell list list \<Rightarrow> frame" where
  "DataFrame cs vss = \<lparr>columns = cs, rows = map (row_of cs) vss\<rparr>"

subsection \<open>The cleaned table as a function of the raw table\<close>

text \<open>
  What lines 126 to 137 make of a table, and what the statements of \<open>clean_data\<close> make
  of the copy, read as functions on tables. Lemma \<open>clean_data_run\<close> below relates them
  to \<open>clean_data\<close>.
\<close>

definition tag_frame :: "frame \<Rightarrow> exn + frame" where
  "tag_frame df =
     (if ''Indicator'' \<in> set (columns df) then
        (let indicator_name =
               (if \<not> empty df then hd (rows df) ''Indicator'' else Str ''Unknown'')
         in case cell_lower indicator_name of
              Inl e \<Rightarrow> Inl e
            | Inr l \<Rightarrow>
                Inr (setitem_scalar (setitem_scalar df ''indicator_clean'' indicator_name)
                       ''connection_type'' (Str (connection_type l))))
      else Inr df)"

text \<open>The two derived columns, for the indicator name \<open>s\<close>.\<close>

definition tagged :: "string \<Rightarrow> frame \<Rightarrow> frame" where
  "tagged s df =
     setitem_scalar (setitem_scalar df ''indicator_clean'' (Str s))
       ''connection_type'' (Str (connection_type (lower s)))"

definition before_dedup :: "string \<Rightarrow> (string \<Rightarrow> number option) \<Rightarrow> frame \<Rightarrow> exn + frame" where
  "before_dedup now parse df =
     (case fill_country df of Inl e \<Rightarrow> Inl e | Inr d1 \<Rightarrow>
      case standardize_country d1 of Inl e \<Rightarrow> Inl e | Inr d2 \<Rightarrow>
      case coerce_value parse d2 of Inl e \<Rightarrow> Inl e | Inr d3 \<Rightarrow>
      case coerce_year parse d3 of Inl e \<Rightarrow> Inl e | Inr d4 \<Rightarrow>
      stamp now d4)"

definition clean_frame :: "string \<Rightarrow> (string \<Rightarrow> number option) \<Rightarrow> frame \<Rightarrow> exn + frame" where
  "clean_frame now parse df =
     (case before_dedup now parse df of
        Inl e \<Rightarrow> Inl e
      | Inr d5 \<Rightarrow> tag_frame (drop_duplicates d5))"

text \<open>What lines 73 to 116 make of one row; \<open>yr\<close> says whether the table has a Year column.\<close>

definition clean_cells ::
  "string \<Rightarrow> (string \<Rightarrow> number option) \<Rightarrow> bool \<Rightarrow> (string \<Rightarrow> cell) \<Rightarrow> string \<Rightarrow> cell"
where
  "clean_cells now parse yr r =
     (let r1 = r(''Country'' := (if r ''Country'' = Null then Str ''Unknown'' else r ''Country''));
          r2 = r1(''Country'' := replace_cell country_mapping (r1 ''Country''));
          r3 = r2(''Value'' := float_cell (to_numeric_cell parse (r2 ''Value'')));
          r4 = (if yr then r3(''Year'' := float_cell (to_numeric_cell parse (r3 ''Year''))) else r3)
      in r4(''processed_at'' := Str now))"

text \<open>Every Year entry is missing, not numeric, or a whole number.\<close>

definition years_integral :: "(string \<Rightarrow> number option) \<Rightarrow> frame \<Rightarrow> bool" where
  "years_integral parse df =
     list_all (\<lambda>r. case to_numeric_cell parse (r ''Year'') of None \<Rightarrow> True | Some q \<Rightarrow> integral q)
       (rows df)"

section \<open>The Fetcher: \<^verbatim>\<open>src/fetch_worldbank_data.py\<close>\<close>

subsection \<open>JSON values and the Python operations on them\<close>

text \<open>What \<^verbatim>\<open>response.json()\<close> returns. An object lists its keys in order; keys are distinct.\<close>

datatype jval =
  JNull
  | JBool bool
  | JNum rat
  | JStr string
  | JArr "jval list"
  | JObj "(string \<times> jval) list"

text \<open>
  The outcome of \<^verbatim>\<open>requests.get\<close>, \<^verbatim>\<open>raise_for_status\<close> and \<^verbatim>\<open>json\<close>: a
  \<^verbatim>\<open>RequestException\<close> (no connection, an HTTP error status, a body that is not JSON),
  or the decoded body.
\<close>

datatype response = RequestFailed | Body jval

text \<open>\<^verbatim>\<open>len(x)\<close>\<close>

definition py_len :: "jval \<Rightarrow> exn + nat" where
  "py_len x =
     (case x of
        JArr xs \<Rightarrow> Inr (length xs)
      | JStr s \<Rightarrow> Inr (length s)
      | JObj kvs \<Rightarrow> Inr (length kvs)
      | _ \<Rightarrow> Inl TypeError)"

text \<open>\<^verbatim>\<open>x[1]\<close>; no JSON object has the integer key 1.\<close>

definition subscript1 :: "jval \<Rightarrow> exn + jval" where
  "subscript1 x =
     (case x of
        JArr xs \<Rightarrow> (if 1 < length xs then Inr (xs ! 1) else Inl IndexError)
      | JStr s \<Rightarrow> (if 1 < length s then Inr (JStr [s ! 1]) else Inl IndexError)
      | JObj kvs \<Rightarrow> Inl (KeyError ''1'')
      | _ \<Rightarrow> Inl TypeError)"


text \<open>The truth value of \<open>x\<close>, as \<^verbatim>\<open>not x\<close> takes it.\<close>

definition truthy :: "jval \<Rightarrow> bool" where
  "truthy x =
     (case x of
        JNull \<Rightarrow> False
      | JBool b \<Rightarrow> b
      | JNum q \<Rightarrow> q \<noteq> 0
      | JStr s \<Rightarrow> s \<noteq> []
      | JArr xs \<Rightarrow> xs \<noteq> []
      | JObj kvs \<Rightarrow> kvs \<noteq> [])"

text \<open>The elements a \<^verbatim>\<open>for\<close> loop or \<^verbatim>\<open>list.extend\<close> takes from \<open>x\<close>.\<close>

definition iterate :: "jval \<Rightarrow> exn + jval list" where
  "iterate x =
     (case x of
        JArr xs \<Rightarrow> Inr xs
      | JStr s \<Rightarrow> Inr (map (\<lambda>c. JStr [c]) s)
      | JObj kvs \<Rightarrow> Inr (map (\<lambda>kv. JStr (fst kv)) kvs)
      | _ \<Rightarrow> Inl TypeError)"

text \<open>\<^verbatim>\<open>x.get(k, default)\<close>: only a dict has the method.\<close>

definition dict_get :: "jval \<Rightarrow> string \<Rightarrow> jval \<Rightarrow> exn + jval" where
  "dict_get x k dflt =
     (case x of
        JObj kvs \<Rightarrow> Inr (case map_of kvs k of Some v \<Rightarrow> v | None \<Rightarrow> dflt)
      | _ \<Rightarrow> Inl AttributeError)"

subsection \<open>\<^verbatim>\<open>discover_indicator_id\<close>\<close>


text \<open>\<^verbatim>\<open>indicator.get("name", "").lower()\<close>\<close>

definition name_lower :: "jval \<Rightarrow> exn + string" where
  "name_lower indicator =
     (case dict_get indicator ''name'' (JStr []) of
        Inl e \<Rightarrow> Inl e
      | Inr (JStr s) \<Rightarrow> Inr (lower s)
      | Inr _ \<Rightarrow> Inl AttributeError)"




subsection \<open>\<^verbatim>\<open>fetch_data\<close>\<close>

definition per_page :: nat where
  "per_page = 1000"

text \<open>
  The loop of lines 103 to 137. \<open>get page\<close> is the outcome of the request for that
  page; the loop asks for each page at most once. \<open>None\<close>: the loop does not end.
\<close>

partial_function (option) fetch_loop ::
  "(nat \<Rightarrow> response) \<Rightarrow> nat \<Rightarrow> jval list \<Rightarrow> (exn + jval list) option"
where
  "fetch_loop get page all_data =
     (case get page of
        RequestFailed \<Rightarrow> Some (Inr all_data)
      | Body response_data \<Rightarrow>
          (case py_len response_data of
             Inl e \<Rightarrow> Some (Inl e)
           | Inr n \<Rightarrow>
               if n < 2 then Some (Inr all_data)
               else
                 (case subscript1 response_data of
                    Inl e \<Rightarrow> Some (Inl e)
                  | Inr data_batch \<Rightarrow>
                      if \<not> truthy data_batch then Some (Inr all_data)
                      else
                        (case iterate data_batch of
                           Inl e \<Rightarrow> Some (Inl e)
                         | Inr items \<Rightarrow>
                             if length items < per_page then Some (Inr (all_data @ items))
                             else fetch_loop get (page + 1) (all_data @ items)))))"

declare fetch_loop.simps [code]

text \<open>
  \<open>api indicator_id start_year end_year page\<close> is the outcome of the request that
  \<^verbatim>\<open>fetch_data\<close> makes for a page.
\<close>

definition fetch_data ::
  "(string \<Rightarrow> int \<Rightarrow> int \<Rightarrow> nat \<Rightarrow> response) \<Rightarrow> string \<Rightarrow> int \<Rightarrow> int \<Rightarrow> (exn + jval list) option"
where
  "fetch_data api indicator_id start_year end_year =
     fetch_loop (api indicator_id start_year end_year) 1 []"

text \<open>
  The records of a page: the second element of the body, when the body is an array and
  that element is one. A full page has at least \<open>per_page\<close> records.
\<close>

definition page_records :: "response \<Rightarrow> jval list" where
  "page_records r =
     (case r of
        Body (JArr (meta # JArr items # rest)) \<Rightarrow> items
      | _ \<Rightarrow> [])"

definition full_page :: "response \<Rightarrow> bool" where
  "full_page r = (per_page \<le> length (page_records r))"

subsection \<open>\<^verbatim>\<open>normalize_data\<close>\<close>

text \<open>The dict built in lines 157 to 166.\<close>

record observation =
  Country :: jval
  Country_Code :: jval
  Year :: jval
  Value :: jval
  UNIT_MEASURE :: string
  OBS_STATUS :: string
  Indicator :: jval
  Indicator_Code :: jval

text \<open>\<^verbatim>\<open>item.get(outer, {}).get(inner, 'Unknown')\<close>\<close>

definition nested_get :: "jval \<Rightarrow> string \<Rightarrow> string \<Rightarrow> exn + jval" where
  "nested_get item outer inner =
     (case dict_get item outer (JObj []) of
        Inl e \<Rightarrow> Inl e
      | Inr x \<Rightarrow> dict_get x inner (JStr ''Unknown''))"

definition normalize_item :: "jval \<Rightarrow> exn + observation" where
  "normalize_item item =
     (case nested_get item ''country'' ''value'' of Inl e \<Rightarrow> Inl e | Inr country \<Rightarrow>
      case dict_get item ''countryiso3code'' (JStr ''Unknown'') of Inl e \<Rightarrow> Inl e | Inr code \<Rightarrow>
      case dict_get item ''date'' (JStr ''Unknown'') of Inl e \<Rightarrow> Inl e | Inr date \<Rightarrow>
      case dict_get item ''value'' JNull of Inl e \<Rightarrow> Inl e | Inr v \<Rightarrow>
      case nested_get item ''indicator'' ''value'' of Inl e \<Rightarrow> Inl e | Inr ind \<Rightarrow>
      case nested_get item ''indicator'' ''id'' of Inl e \<Rightarrow> Inl e | Inr ind_code \<Rightarrow>
        Inr \<lparr>Country = country, Country_Code = code, Year = date, Value = v,
             UNIT_MEASURE = ''Percentage'',
             OBS_STATUS = (if v \<noteq> JNull then ''Regular'' else ''Missing''),
             Indicator = ind, Indicator_Code = ind_code\<rparr>)"

text \<open>
  The loop of lines 155 to 170: a record that raises is logged and left out. The rows are
  given as they stand before lines 175 to 183, which rewrite the columns Year and Value
  and add processed_at, and touch no other column.
\<close>

fun normalize_data :: "jval list \<Rightarrow> observation list" where
  "normalize_data [] = []"
| "normalize_data (item # raw_data) =
     (case normalize_item item of
        Inl e \<Rightarrow> normalize_data raw_data
      | Inr rec \<Rightarrow> rec # normalize_data raw_data)"

section \<open>The Visualizer: \<^verbatim>\<open>analysis/generate_visualizations.py\<close>\<close>

text \<open>
  The cleaned table as \<^verbatim>\<open>read_csv\<close> loads it: Country is a text, Year and Value are
  float columns, where \<open>None\<close> is NaN.
\<close>

record point =
  row_country :: string
  row_year :: "rat option"
  row_value :: "rat option"

text \<open>\<^verbatim>\<open>==\<close> and \<^verbatim>\<open><\<close> on floats: every comparison with NaN is false.\<close>

definition float_eq :: "rat option \<Rightarrow> rat option \<Rightarrow> bool" where
  "float_eq x y = (case (x, y) of (Some a, Some b) \<Rightarrow> a = b | _ \<Rightarrow> False)"

definition float_lt :: "rat option \<Rightarrow> rat option \<Rightarrow> bool" where
  "float_lt x y = (case (x, y) of (Some a, Some b) \<Rightarrow> a < b | _ \<Rightarrow> False)"

text \<open>\<^verbatim>\<open>series.unique()\<close>: the values in order of first appearance, NaN once.\<close>

definition unique :: "rat option list \<Rightarrow> rat option list" where
  "unique s = keep_first (\<lambda>x. x) [] s"

text \<open>
  \<^verbatim>\<open>sorted(xs)\<close> consults \<^verbatim>\<open><\<close> only. It is modelled as the insertion sort that moves
  each element left past the elements it is less than. On floats without NaN every
  sorting algorithm returns the same list. NaN is less than nothing and nothing is less
  than it, so it stays where it is met and the elements on either side of it are not
  compared with each other; CPython's sort does the same on the short lists of the
  examples below (for \<^verbatim>\<open>[a, nan]\<close> it asks once whether \<^verbatim>\<open>nan < a\<close>, and leaves the
  list as it is).
\<close>

fun insert_left :: "rat option \<Rightarrow> rat option list \<Rightarrow> rat option list" where
  "insert_left x [] = [x]"
| "insert_left x (y # ys) = (if float_lt x y then y # insert_left x ys else x # y # ys)"

definition sorted_py :: "rat option list \<Rightarrow> rat option list" where
  "sorted_py xs = rev (foldl (\<lambda>acc x. insert_left x acc) [] xs)"

text \<open>
  \<^verbatim>\<open>df.sort_values('Value', ascending=False)\<close>: the rows with a value, largest first,
  then the rows whose value is NaN. The order among equal values is that of the table.
\<close>

fun insert_desc :: "point \<Rightarrow> point list \<Rightarrow> point list" where
  "insert_desc p [] = [p]"
| "insert_desc p (q # qs) =
     (if float_lt (row_value q) (row_value p) then p # q # qs else q # insert_desc p qs)"

definition sort_values_desc :: "point list \<Rightarrow> point list" where
  "sort_values_desc df =
     foldr insert_desc (filter (\<lambda>p. row_value p \<noteq> None) df) []
       @ filter (\<lambda>p. row_value p = None) df"

text \<open>\<^verbatim>\<open>df.head(n)\<close>: the first \<open>n\<close> rows; for negative \<open>n\<close>, all but the last \<open>-n\<close>.\<close>

definition head :: "int \<Rightarrow> 'a list \<Rightarrow> 'a list" where
  "head n df = (if 0 \<le> n then take (nat n) df else take (length df - nat (- n)) df)"

text \<open>What is drawn: the year of the title and of the file name, and the bars in order.\<close>

record chart =
  chart_year :: "rat option"
  chart_n :: int
  bars :: "(string \<times> rat option) list"

definition draw :: "rat option \<Rightarrow> int \<Rightarrow> point list \<Rightarrow> chart" where
  "draw year n year_data =
     \<lparr>chart_year = year, chart_n = n,
      bars = map (\<lambda>p. (row_country p, row_value p)) (head n (sort_values_desc year_data))\<rparr>"

text \<open>\<^verbatim>\<open>plot_top_countries(df, year, n)\<close>; \<open>None\<close> when it returns without a chart.\<close>

definition plot_top_countries :: "point list \<Rightarrow> rat option \<Rightarrow> int \<Rightarrow> chart option" where
  "plot_top_countries df year n =
     (let year_data = filter (\<lambda>p. float_eq (row_year p) year) df in
      if year_data = [] then
        (let available_years = sorted_py (unique (map row_year df)) in
         if available_years = [] then None
         else
           (let year = last available_years;
                year_data = filter (\<lambda>p. float_eq (row_year p) year) df
            in Some (draw year n year_data)))
      else Some (draw year n year_data))"

section \<open>Example inputs\<close>

text \<open>A reading of the clock, and a reader of numbers that knows the texts used below.\<close>

definition example_now :: string where
  "example_now = ''2024-05-01 12:00:00''"

definition example_parse :: "string \<Rightarrow> number option" where
  "example_parse = map_of [(''2020'', Fin 2020), (''2021'', Fin 2021), (''55.5'', Fin (111 / 2))]"

text \<open>A raw table as the Fetcher writes it, cut down to four columns.\<close>

definition example_raw :: frame where
  "example_raw =
     DataFrame [''Country'', ''Year'', ''Value'', ''Indicator'']
       [[Str ''USA'', Str ''2020'', Str ''55.5'', Str ''Fixed and mobile subscriptions''],
        [Str ''UK'', Str ''2021'', Str ''n/a'', Str ''Fixed and mobile subscriptions'']]"

text \<open>Two rows for one country and year, with different values.\<close>

definition example_two_values :: frame where
  "example_two_values =
     DataFrame [''Country'', ''Year'', ''Value'']
       [[Str ''USA'', Num (Fin 2020), Num (Fin 1)],
        [Str ''USA'', Num (Fin 2020), Num (Fin 2)]]"




text \<open>A server with 1001 records: a full page, then a page with one record.\<close>

definition example_record :: jval where
  "example_record =
     JObj [(''country'', JObj [(''id'', JStr ''NA''), (''value'', JStr ''Namibia'')]),
           (''countryiso3code'', JStr ''NAM''),
           (''date'', JStr ''2020''),
           (''value'', JNum (111 / 2)),
           (''indicator'', JObj [(''id'', JStr ''IT.NET.USER.ZS''),
                                 (''value'', JStr ''Individuals using the Internet'')])]"

definition example_api :: "string \<Rightarrow> int \<Rightarrow> int \<Rightarrow> nat \<Rightarrow> response" where
  "example_api indicator_id start_year end_year page =
     (if page = 1 then Body (JArr [JObj [], JArr (replicate 1000 example_record)])
      else if page = 2 then Body (JArr [JObj [], JArr [example_record]])
      else RequestFailed)"


section \<open>Properties of the string operations\<close>

text \<open>\<open>contains\<close> is Python's substring test.\<close>

lemma startswith_iff: "startswith s p \<longleftrightarrow> (\<exists>q. s = p @ q)"
  by (induction s p rule: startswith.induct) auto

lemma contains_iff: "contains sub s \<longleftrightarrow> (\<exists>p q. s = p @ sub @ q)"
proof (induction s)
  case Nil
  show ?case by auto
next
  case (Cons c cs)
  show ?case
  proof
    assume "contains sub (c # cs)"
    then consider "startswith (c # cs) sub" | "contains sub cs" by auto
    then show "\<exists>p q. c # cs = p @ sub @ q"
    proof cases
      case 1
      then obtain q where "c # cs = sub @ q" by (auto simp add: startswith_iff)
      then have "c # cs = [] @ sub @ q" by simp
      then show ?thesis by blast
    next
      case 2
      with Cons obtain p q where "cs = p @ sub @ q" by auto
      then have "c # cs = (c # p) @ sub @ q" by simp
      then show ?thesis by blast
    qed
  next
    assume "\<exists>p q. c # cs = p @ sub @ q"
    then obtain p q where pq: "c # cs = p @ sub @ q" by blast
    show "contains sub (c # cs)"
    proof (cases p)
      case Nil
      with pq have "startswith (c # cs) sub" by (auto simp add: startswith_iff)
      then show ?thesis by simp
    next
      case (Cons x p')
      with pq have "cs = p' @ sub @ q" by simp
      with Cons.IH have "contains sub cs" by blast
      then show ?thesis by simp
    qed
  qed
qed

section \<open>Properties of the Cleaner\<close>

subsection \<open>The run of \<open>clean_data\<close> and the table it computes\<close>

lemma inplace_last:
  "inplace (length h) stmt (h @ [df]) =
     (case stmt df of Inl e \<Rightarrow> (Inl e, h @ [df]) | Inr df' \<Rightarrow> (Inr (), h @ [df']))"
  by (simp add: inplace_def split: sum.splits)

lemma tag_indicator_last:
  "tag_indicator (Suc (length h)) (h @ [c, df]) =
     (case tag_frame df of
        Inl e \<Rightarrow> (Inl e, h @ [c, setitem_scalar df ''indicator_clean''
                 (if \<not> empty df then hd (rows df) ''Indicator'' else Str ''Unknown'')])
      | Inr df' \<Rightarrow> (Inr (), h @ [c, df']))"
proof -
  have upd: "(h @ [c, x])[Suc (length h) := y] = h @ [c, y]" for x y
    by (simp add: list_update_append)
  have nth: "(h @ [c, x]) ! Suc (length h) = x" for x
    by (simp add: nth_append)
  show ?thesis
    unfolding tag_indicator_def tag_frame_def Let_def nth upd
    by (simp split: sum.splits)
qed

text \<open>
  On a table that is not empty, \<open>clean_data\<close> raises what \<open>clean_frame\<close> raises or
  returns the reference after the next one; the store keeps every object it had and gains
  the working copy and, when the run succeeds, the cleaned table.
\<close>

lemma clean_data_run:
  assumes "\<not> empty (h ! a)"
  shows "\<exists>new. clean_data now parse (Some a) h =
           (map_sum id (\<lambda>_. Some (Suc (length h))) (clean_frame now parse (h ! a)), h @ new)
         \<and> (\<forall>df. clean_frame now parse (h ! a) = Inr df \<longrightarrow> (\<exists>c. new = [c, df]))"
  using assms
  unfolding clean_data_def clean_frame_def before_dedup_def copy_def bnd_def drop_duplicates_new_def
  by (auto simp add: inplace_last tag_indicator_last stamp_def split: sum.splits)

lemma clean_data_SomeD:
  assumes "clean_data now parse (Some a) h = (Inr (Some d), h')"
  shows "\<not> empty (h ! a) \<and> d = Suc (length h) \<and>
         (\<exists>c. h' = h @ [c, h' ! d]) \<and> clean_frame now parse (h ! a) = Inr (h' ! d)"
proof -
  have ne: "\<not> empty (h ! a)"
    using assms by (auto simp add: clean_data_def)
  from clean_data_run [OF ne, of now parse] obtain new where
    run: "clean_data now parse (Some a) h =
           (map_sum id (\<lambda>_. Some (Suc (length h))) (clean_frame now parse (h ! a)), h @ new)"
    and new: "\<forall>df. clean_frame now parse (h ! a) = Inr df \<longrightarrow> (\<exists>c. new = [c, df])"
    by blast
  from run assms have h': "h' = h @ new"
    and res: "map_sum id (\<lambda>_. Some (Suc (length h))) (clean_frame now parse (h ! a)) = Inr (Some d)"
    by simp_all
  from res obtain df where df: "clean_frame now parse (h ! a) = Inr df" and d: "d = Suc (length h)"
    by (cases "clean_frame now parse (h ! a)") auto
  from new df obtain c where c: "new = [c, df]" by blast
  have "h' ! d = df" by (simp add: h' c d nth_append)
  with ne d h' c df show ?thesis by simp
qed

subsection \<open>The statements, row by row\<close>

lemma setitem_map:
  "setitem df c (map f (rows df)) =
     \<lparr>columns = (if c \<in> set (columns df) then columns df else columns df @ [c]),
      rows = map (\<lambda>r. r(c := f r)) (rows df)\<rparr>"
  by (simp add: setitem_def zip_map2 zip_same_conv_map o_def)

lemma setitem_scalar_rows:
  "setitem_scalar df c v =
     \<lparr>columns = (if c \<in> set (columns df) then columns df else columns df @ [c]),
      rows = map (\<lambda>r. r(c := v)) (rows df)\<rparr>"
proof -
  have "replicate (length xs) v = map (\<lambda>r. v) xs" for xs :: "(string \<Rightarrow> cell) list"
    by (induction xs) simp_all
  then show ?thesis
    unfolding setitem_scalar_def by (simp only: setitem_map)
qed

lemma fill_country_eq:
  "fill_country df =
     (if ''Country'' \<in> set (columns df) then
        Inr \<lparr>columns = columns df,
             rows = map (\<lambda>r. r(''Country'' := (if r ''Country'' = Null then Str ''Unknown''
                                                else r ''Country''))) (rows df)\<rparr>
      else Inl (KeyError ''Country''))"
proof -
  have "fillna (map (\<lambda>r. r ''Country'') (rows df)) (Str ''Unknown'') =
        map (\<lambda>r. if r ''Country'' = Null then Str ''Unknown'' else r ''Country'') (rows df)"
    by (simp add: fillna_def)
  then show ?thesis
    by (simp add: fill_country_def getitem_def setitem_map)
qed

lemma standardize_country_eq:
  "standardize_country df =
     (if ''Country'' \<in> set (columns df) then
        Inr \<lparr>columns = columns df,
             rows = map (\<lambda>r. r(''Country'' := replace_cell country_mapping (r ''Country'')))
                      (rows df)\<rparr>
      else Inl (KeyError ''Country''))"
proof -
  have "replace (map (\<lambda>r. r ''Country'') (rows df)) country_mapping =
        map (\<lambda>r. replace_cell country_mapping (r ''Country'')) (rows df)"
    by (simp add: replace_def)
  then show ?thesis
    by (simp add: standardize_country_def getitem_def setitem_map)
qed

lemma coerce_value_eq:
  "coerce_value parse df =
     (if ''Value'' \<in> set (columns df) then
        Inr \<lparr>columns = columns df,
             rows = map (\<lambda>r. r(''Value'' := float_cell (to_numeric_cell parse (r ''Value''))))
                      (rows df)\<rparr>
      else Inl (KeyError ''Value''))"
proof -
  have "map float_cell (to_numeric parse (map (\<lambda>r. r ''Value'') (rows df))) =
        map (\<lambda>r. float_cell (to_numeric_cell parse (r ''Value''))) (rows df)"
    by (simp add: to_numeric_def)
  then show ?thesis
    by (simp add: coerce_value_def getitem_def setitem_map)
qed

lemma coerce_year_eq:
  "coerce_year parse df =
     (if ''Year'' \<in> set (columns df) then
        (if years_integral parse df then
           Inr \<lparr>columns = columns df,
                rows = map (\<lambda>r. r(''Year'' := float_cell (to_numeric_cell parse (r ''Year''))))
                         (rows df)\<rparr>
         else Inl TypeError)
      else Inr df)"
proof (cases "''Year'' \<in> set (columns df)")
  case False
  then show ?thesis by (simp add: coerce_year_def)
next
  case True
  have ast: "astype_Int64 (to_numeric parse (map (\<lambda>r. r ''Year'') (rows df))) =
     (if years_integral parse df
      then Inr (map (\<lambda>r. to_numeric_cell parse (r ''Year'')) (rows df)) else Inl TypeError)"
    by (simp add: astype_Int64_def to_numeric_def years_integral_def list_all_iff)
  have m: "map float_cell (map (\<lambda>r. to_numeric_cell parse (r ''Year'')) (rows df)) =
        map (\<lambda>r. float_cell (to_numeric_cell parse (r ''Year''))) (rows df)"
    by simp
  have set: "setitem df ''Year'' (map float_cell (map (\<lambda>r. to_numeric_cell parse (r ''Year'')) (rows df))) =
     \<lparr>columns = columns df,
      rows = map (\<lambda>r. r(''Year'' := float_cell (to_numeric_cell parse (r ''Year'')))) (rows df)\<rparr>"
    using True by (simp only: m setitem_map if_True)
  from True show ?thesis
    by (simp add: coerce_year_def getitem_def ast set del: map_map)
qed

lemma stamp_eq:
  "stamp now df =
     Inr \<lparr>columns = (if ''processed_at'' \<in> set (columns df) then columns df
                      else columns df @ [''processed_at'']),
          rows = map (\<lambda>r. r(''processed_at'' := Str now)) (rows df)\<rparr>"
  by (simp add: stamp_def setitem_scalar_rows)

lemma years_integral_cong:
  assumes "map (\<lambda>r. r ''Year'') (rows df') = map (\<lambda>r. r ''Year'') (rows df)"
  shows "years_integral parse df' = years_integral parse df"
proof -
  have "map (\<lambda>r. case to_numeric_cell parse (r ''Year'') of None \<Rightarrow> True | Some q \<Rightarrow> integral q) (rows df')
      = map (\<lambda>c. case to_numeric_cell parse c of None \<Rightarrow> True | Some q \<Rightarrow> integral q)
          (map (\<lambda>r. r ''Year'') (rows df'))"
    by simp
  also have "\<dots> = map (\<lambda>r. case to_numeric_cell parse (r ''Year'') of None \<Rightarrow> True | Some q \<Rightarrow> integral q) (rows df)"
    by (simp only: assms) simp
  finally have "list_all (\<lambda>b. b) (map (\<lambda>r. case to_numeric_cell parse (r ''Year'') of None \<Rightarrow> True | Some q \<Rightarrow> integral q) (rows df'))
     = list_all (\<lambda>b. b) (map (\<lambda>r. case to_numeric_cell parse (r ''Year'') of None \<Rightarrow> True | Some q \<Rightarrow> integral q) (rows df))"
    by simp
  then show ?thesis
    by (simp add: years_integral_def list_all_iff)
qed

text \<open>Lines 73 to 116 raise exactly for a missing Country or Value column and for a Year
  that is a number but not a whole one; otherwise they rewrite each row by \<open>clean_cells\<close>.\<close>

lemma before_dedup_eq:
  "before_dedup now parse df =
     (if ''Country'' \<notin> set (columns df) then Inl (KeyError ''Country'')
      else if ''Value'' \<notin> set (columns df) then Inl (KeyError ''Value'')
      else if ''Year'' \<in> set (columns df) \<and> \<not> years_integral parse df then Inl TypeError
      else Inr \<lparr>columns = (if ''processed_at'' \<in> set (columns df) then columns df
                            else columns df @ [''processed_at'']),
                rows = map (clean_cells now parse (''Year'' \<in> set (columns df))) (rows df)\<rparr>)"
proof -
  define d1 where "d1 = \<lparr>columns = columns df,
             rows = map (\<lambda>r. r(''Country'' := (if r ''Country'' = Null then Str ''Unknown''
                                                else r ''Country''))) (rows df)\<rparr>"
  define d2 where "d2 = \<lparr>columns = columns df,
             rows = map (\<lambda>r. r(''Country'' := replace_cell country_mapping (r ''Country'')))
                      (rows d1)\<rparr>"
  define d3 where "d3 = \<lparr>columns = columns df,
             rows = map (\<lambda>r. r(''Value'' := float_cell (to_numeric_cell parse (r ''Value''))))
                      (rows d2)\<rparr>"
  have yi: "years_integral parse d3 = years_integral parse df"
    by (rule years_integral_cong) (simp add: d3_def d2_def d1_def)
  show ?thesis
  proof (cases "''Country'' \<in> set (columns df)")
    case False
    then show ?thesis by (simp add: before_dedup_def fill_country_eq)
  next
    case c: True
    then have s1: "fill_country df = Inr d1" "standardize_country d1 = Inr d2"
      by (simp_all add: fill_country_eq standardize_country_eq d1_def d2_def)
    show ?thesis
    proof (cases "''Value'' \<in> set (columns df)")
      case False
      with c s1 show ?thesis
        by (simp add: before_dedup_def coerce_value_eq d2_def)
    next
      case v: True
      then have s3: "coerce_value parse d2 = Inr d3"
        by (simp add: coerce_value_eq d3_def d2_def)
      show ?thesis
      proof (cases "''Year'' \<in> set (columns df)")
        case False
        with c v s1 s3 show ?thesis
          by (simp add: before_dedup_def coerce_year_eq stamp_eq d3_def d2_def d1_def
              clean_cells_def Let_def)
      next
        case y: True
        show ?thesis
        proof (cases "years_integral parse df")
          case False
          with c v y s1 s3 yi show ?thesis
            by (simp add: before_dedup_def coerce_year_eq d3_def)
        next
          case True
          with c v y s1 s3 yi show ?thesis
            by (simp add: before_dedup_def coerce_year_eq stamp_eq d3_def d2_def d1_def
                clean_cells_def Let_def)
        qed
      qed
    qed
  qed
qed

lemma before_dedup_columns:
  assumes "before_dedup now parse df = Inr d5"
  shows "set (columns d5) \<subseteq> insert ''processed_at'' (set (columns df))"
  using assms by (auto simp add: before_dedup_eq split: if_splits)


lemma clean_cells_other:
  "c \<notin> {''Country'', ''Value'', ''Year'', ''processed_at''} \<Longrightarrow> clean_cells now parse yr r c = r c"
  by (simp add: clean_cells_def Let_def)


subsection \<open>Dropping duplicates\<close>

lemma keep_first_keys:
  "key ` set (keep_first key seen xs) = key ` set xs - set seen"
  by (induction xs arbitrary: seen) auto

lemma keep_first_subset: "set (keep_first key seen xs) \<subseteq> set xs"
  by (induction xs arbitrary: seen) auto

lemma keep_first_distinct: "distinct (map key (keep_first key seen xs))"
proof (induction xs arbitrary: seen)
  case Nil
  show ?case by simp
next
  case (Cons x xs)
  have "key x \<notin> key ` set (keep_first key (key x # seen) xs)"
    by (simp add: keep_first_keys)
  with Cons show ?case by simp
qed

lemma keep_first_hd:
  "xs \<noteq> [] \<Longrightarrow> keep_first key [] xs \<noteq> [] \<and> hd (keep_first key [] xs) = hd xs"
  by (cases xs) simp_all

lemma drop_duplicates_distinct:
  "distinct (map (\<lambda>r. map r (columns (drop_duplicates df))) (rows (drop_duplicates df)))"
  by (simp add: drop_duplicates_def keep_first_distinct)


subsection \<open>The derived columns\<close>

lemma tag_frame_eq:
  "tag_frame df =
     (if ''Indicator'' \<in> set (columns df) then
        (case (if \<not> empty df then hd (rows df) ''Indicator'' else Str ''Unknown'') of
           Str s \<Rightarrow> Inr (tagged s df)
         | _ \<Rightarrow> Inl AttributeError)
      else Inr df)"
  by (simp add: tag_frame_def tagged_def cell_lower_def Let_def split: cell.splits)

lemma tagged_rows:
  "rows (tagged s df) =
     map (\<lambda>r. r(''indicator_clean'' := Str s,
               ''connection_type'' := Str (connection_type (lower s)))) (rows df)"
  by (simp add: tagged_def setitem_scalar_rows)

lemma tagged_columns_new:
  assumes "''indicator_clean'' \<notin> set (columns df)" "''connection_type'' \<notin> set (columns df)"
  shows "columns (tagged s df) = columns df @ [''indicator_clean'', ''connection_type'']"
  using assms by (simp add: tagged_def setitem_scalar_rows)

lemma tagged_keys:
  assumes ic: "''indicator_clean'' \<notin> set cs" and ct: "''connection_type'' \<notin> set cs"
  shows "map (r(''indicator_clean'' := v, ''connection_type'' := w))
           (cs @ [''indicator_clean'', ''connection_type'']) = map r cs @ [v, w]"
proof -
  have "map (r(''indicator_clean'' := v, ''connection_type'' := w)) cs = map r cs"
    using ic ct by (induction cs) auto
  then show ?thesis by simp
qed


text \<open>The outcome of \<open>clean_frame\<close> on a table that is not empty, case by case.\<close>

lemma clean_frame_cases:
  assumes ne: "\<not> empty df"
  shows "clean_frame now parse df =
     (case before_dedup now parse df of
        Inl e \<Rightarrow> Inl e
      | Inr d5 \<Rightarrow>
          if ''Indicator'' \<in> set (columns df) then
            (case hd (rows df) ''Indicator'' of
               Str s \<Rightarrow> Inr (tagged s (drop_duplicates d5))
             | _ \<Rightarrow> Inl AttributeError)
          else Inr (drop_duplicates d5))"
proof (cases "before_dedup now parse df")
  case (Inl e)
  then show ?thesis by (simp add: clean_frame_def)
next
  case (Inr d5)
  from ne have rows: "rows df \<noteq> []" and cols: "columns df \<noteq> []"
    by (simp_all add: empty_def)
  from Inr have d5: "columns d5 = (if ''processed_at'' \<in> set (columns df) then columns df
                            else columns df @ [''processed_at''])"
      "rows d5 = map (clean_cells now parse (''Year'' \<in> set (columns df))) (rows df)"
    by (auto simp add: before_dedup_eq split: if_splits)
  have ind: "''Indicator'' \<in> set (columns (drop_duplicates d5)) \<longleftrightarrow> ''Indicator'' \<in> set (columns df)"
    by (simp add: drop_duplicates_def d5)
  have ne5: "\<not> empty (drop_duplicates d5)"
    using rows cols by (simp add: empty_def drop_duplicates_def d5 keep_first_hd)
  have "hd (rows (drop_duplicates d5)) = hd (rows d5)"
    using rows by (simp add: drop_duplicates_def d5 keep_first_hd)
  also have "\<dots> = clean_cells now parse (''Year'' \<in> set (columns df)) (hd (rows df))"
    using rows by (simp add: d5 hd_map)
  finally have "hd (rows (drop_duplicates d5)) ''Indicator'' = hd (rows df) ''Indicator''"
    by (simp add: clean_cells_other)
  with Inr ind ne5 show ?thesis
    by (simp add: clean_frame_def tag_frame_eq)
qed


subsection \<open>Evaluating the examples\<close>

lemma integral_Ints: "integral (Fin q) \<longleftrightarrow> q \<in> \<int>"
proof
  assume "integral (Fin q)"
  then have "of_int \<lfloor>q\<rfloor> = q" by (simp add: integral.simps)
  then show "q \<in> \<int>" by (metis Ints_of_int)
next
  assume "q \<in> \<int>"
  then obtain n where "q = of_int n" by (rule Ints_cases)
  then show "integral (Fin q)" by (simp add: integral.simps)
qed

lemmas table_defs = DataFrame_def row_of_def empty_def getitem_def setitem_def setitem_scalar_def
  fillna_def replace_def replace_cell_def country_mapping_def to_numeric_def to_numeric_cell_def
  astype_Int64_def integral_Ints float_cell_def drop_duplicates_def

lemmas clean_data_defs = clean_data_def copy_def bnd_def inplace_def fill_country_def
  standardize_country_def coerce_value_def coerce_year_def stamp_def drop_duplicates_new_def
  tag_indicator_def cell_lower_def connection_type_def lower_def lower_char_def Let_def

lemma example_raw_run:
  "clean_data example_now example_parse (Some 0) [example_raw] =
     (Inr (Some 2), snd (clean_data example_now example_parse (Some 0) [example_raw]))"
  by (simp add: prod_eq_iff example_raw_def example_parse_def clean_data_defs table_defs)


subsection \<open>C1: one row per Country and Year after deduplication\<close>

text \<open>
  C1, as the code has it. \<open>drop_duplicates\<close> compares whole rows, so what holds of the
  cleaned table is this: when the raw table has no column named indicator_clean or
  connection_type (the Fetcher writes none), no two rows of the table that \<open>clean_data\<close>
  returns agree in every column. Rows that agree on Country and Year and differ in another
  column are all kept.
\<close>

theorem dedup_whole_rows:
  assumes run: "clean_data now parse (Some a) h = (Inr (Some d), h')"
    and ic: "''indicator_clean'' \<notin> set (columns (h ! a))"
    and ct: "''connection_type'' \<notin> set (columns (h ! a))"
  shows "distinct (map (\<lambda>r. map r (columns (h' ! d))) (rows (h' ! d)))"
proof -
  from clean_data_SomeD [OF run] have ne: "\<not> empty (h ! a)"
    and out: "clean_frame now parse (h ! a) = Inr (h' ! d)"
    by simp_all
  from out obtain d5 where d5: "before_dedup now parse (h ! a) = Inr d5"
    by (cases "before_dedup now parse (h ! a)") (simp_all add: clean_frame_def)
  let ?dd = "drop_duplicates d5"
  have cols: "columns ?dd = columns d5"
    by (simp add: drop_duplicates_def)
  from before_dedup_columns [OF d5] ic ct
  have ic5: "''indicator_clean'' \<notin> set (columns ?dd)" and ct5: "''connection_type'' \<notin> set (columns ?dd)"
    by (auto simp add: cols)
  have dist: "distinct (map (\<lambda>r. map r (columns ?dd)) (rows ?dd))"
    by (rule drop_duplicates_distinct)
  show ?thesis
  proof (cases "''Indicator'' \<in> set (columns (h ! a))")
    case False
    with out d5 ne have "h' ! d = ?dd"
      by (simp add: clean_frame_cases)
    with dist show ?thesis by simp
  next
    case True
    with out d5 ne have "\<exists>s. tagged s ?dd = h' ! d"
      by (auto simp add: clean_frame_cases split: cell.splits)
    then obtain s where s: "h' ! d = tagged s ?dd" by metis
    let ?v = "Str s" and ?w = "Str (connection_type (lower s))"
    have rws: "rows (h' ! d) =
        map (\<lambda>r. r(''indicator_clean'' := ?v, ''connection_type'' := ?w)) (rows ?dd)"
      by (simp only: s tagged_rows)
    have cls: "columns (h' ! d) = columns ?dd @ [''indicator_clean'', ''connection_type'']"
      by (simp only: s tagged_columns_new [OF ic5 ct5])
    have "map (\<lambda>r. map r (columns (h' ! d))) (rows (h' ! d)) =
          map ((\<lambda>r. map r (columns ?dd @ [''indicator_clean'', ''connection_type''])) \<circ>
               (\<lambda>r. r(''indicator_clean'' := ?v, ''connection_type'' := ?w))) (rows ?dd)"
      by (simp only: rws cls map_map)
    also have "\<dots> = map (\<lambda>r. map r (columns ?dd) @ [?v, ?w]) (rows ?dd)"
      by (simp only: o_def tagged_keys [OF ic5 ct5])
    also have "\<dots> = map (\<lambda>k. k @ [?v, ?w]) (map (\<lambda>r. map r (columns ?dd)) (rows ?dd))"
      by (simp add: o_def)
    finally have eq: "map (\<lambda>r. map r (columns (h' ! d))) (rows (h' ! d)) =
        map (\<lambda>k. k @ [?v, ?w]) (map (\<lambda>r. map r (columns ?dd)) (rows ?dd))" .
    have "inj (\<lambda>k :: cell list. k @ [?v, ?w])"
      by (rule injI) simp
    then have "inj_on (\<lambda>k :: cell list. k @ [?v, ?w]) (set (map (\<lambda>r. map r (columns ?dd)) (rows ?dd)))"
      by (rule inj_on_subset) simp
    with dist show ?thesis
      unfolding eq by (simp only: distinct_map)
  qed
qed

text \<open>The theorem at \<open>example_raw\<close>, whose two rows differ.\<close>

theorem dedup_whole_rows_witness:
  "''indicator_clean'' \<notin> set (columns ([example_raw] ! 0))
   \<and> ''connection_type'' \<notin> set (columns ([example_raw] ! 0))
   \<and> fst (clean_data example_now example_parse (Some 0) [example_raw]) = Inr (Some 2)
   \<and> distinct (map (\<lambda>r. map r
          (columns (snd (clean_data example_now example_parse (Some 0) [example_raw]) ! 2)))
          (rows (snd (clean_data example_now example_parse (Some 0) [example_raw]) ! 2)))"
proof -
  have ic: "''indicator_clean'' \<notin> set (columns ([example_raw] ! 0))"
    and ct: "''connection_type'' \<notin> set (columns ([example_raw] ! 0))"
    by (simp_all add: example_raw_def DataFrame_def)
  from dedup_whole_rows [OF example_raw_run ic ct] ic ct example_raw_run
  show ?thesis by (simp add: prod_eq_iff)
qed

text \<open>
  C1 as stated fails: the two rows of \<open>example_two_values\<close> have the same Country and
  Year and the values 1 and 2, and the cleaned table has both.
\<close>

theorem two_values_both_kept:
  "fst (clean_data example_now example_parse (Some 0) [example_two_values]) = Inr (Some 2)
   \<and> length (rows (snd (clean_data example_now example_parse (Some 0) [example_two_values]) ! 2)) = 2
   \<and> (rows (snd (clean_data example_now example_parse (Some 0) [example_two_values]) ! 2) ! 0) ''Country''
       = Str ''United States of America''
   \<and> (rows (snd (clean_data example_now example_parse (Some 0) [example_two_values]) ! 2) ! 1) ''Country''
       = Str ''United States of America''
   \<and> (rows (snd (clean_data example_now example_parse (Some 0) [example_two_values]) ! 2) ! 0) ''Year''
       = Num (Fin 2020)
   \<and> (rows (snd (clean_data example_now example_parse (Some 0) [example_two_values]) ! 2) ! 1) ''Year''
       = Num (Fin 2020)
   \<and> (rows (snd (clean_data example_now example_parse (Some 0) [example_two_values]) ! 2) ! 0) ''Value''
       = Num (Fin 1)
   \<and> (rows (snd (clean_data example_now example_parse (Some 0) [example_two_values]) ! 2) ! 1) ''Value''
       = Num (Fin 2)"
  by (simp add: example_two_values_def clean_data_defs table_defs)

subsection \<open>C2: the connection type is a function of the first Indicator text\<close>




subsection \<open>C3: coercion of Value and Year\<close>




subsection \<open>C5: the canonicalization is idempotent\<close>

lemma country_mapping_range:
  "list_all (\<lambda>kv. map_of country_mapping (snd kv) = None) country_mapping"
  by (simp add: country_mapping_def)

lemma replace_cell_idem:
  "replace_cell country_mapping (replace_cell country_mapping x) = replace_cell country_mapping x"
proof (cases x)
  case (Str s)
  show ?thesis
  proof (cases "map_of country_mapping s")
    case None
    with Str show ?thesis by (simp add: replace_cell_def)
  next
    case (Some t)
    then have "(s, t) \<in> set country_mapping" by (rule map_of_SomeD)
    with country_mapping_range have "map_of country_mapping t = None"
      by (auto simp add: list_all_iff)
    with Str Some show ?thesis by (simp add: replace_cell_def)
  qed
qed (simp_all add: replace_cell_def)

text \<open>
  C5: applying line 105 twice gives the table (or the exception) that applying it once
  gives; the same holds of the replacement on a column; and no value of
  \<open>country_mapping\<close> is one of its keys.
\<close>

theorem canonicalization_idempotent:
  "(case standardize_country df of Inl e \<Rightarrow> Inl e | Inr df' \<Rightarrow> standardize_country df')
     = standardize_country df
   \<and> replace (replace s country_mapping) country_mapping = replace s country_mapping
   \<and> list_all (\<lambda>kv. map_of country_mapping (snd kv) = None) country_mapping"
proof (intro conjI)
  show "(case standardize_country df of Inl e \<Rightarrow> Inl e | Inr df' \<Rightarrow> standardize_country df')
     = standardize_country df"
    by (simp add: standardize_country_eq replace_cell_idem o_def)
  show "replace (replace s country_mapping) country_mapping = replace s country_mapping"
    by (simp add: replace_def replace_cell_idem)
  show "list_all (\<lambda>kv. map_of country_mapping (snd kv) = None) country_mapping"
    by (rule country_mapping_range)
qed

subsection \<open>C8: the input table is not changed\<close>

text \<open>
  C8: after \<open>clean_data\<close>, whether it raises or returns, the table at the argument's
  reference is the table that was there before, and so is every other object that existed
  before the call. A table that is returned is a new object: its reference is none of the
  references that existed before the call.
\<close>

theorem clean_data_leaves_input:
  assumes a: "a < length h"
    and run: "clean_data now parse (Some a) h = (res, h')"
  shows "h' ! a = h ! a \<and> take (length h) h' = h \<and>
         (\<forall>d. res = Inr (Some d) \<longrightarrow> d \<noteq> a \<and> length h \<le> d \<and> d < length h')"
proof (cases "empty (h ! a)")
  case True
  with run have "h' = h" "res = Inr None"
    by (simp_all add: clean_data_def)
  then show ?thesis by simp
next
  case False
  from clean_data_run [OF False, of now parse] run obtain new where
    h': "h' = h @ new"
    and res: "res = map_sum id (\<lambda>_. Some (Suc (length h))) (clean_frame now parse (h ! a))"
    and new: "\<forall>df. clean_frame now parse (h ! a) = Inr df \<longrightarrow> (\<exists>c. new = [c, df])"
    by auto
  have "d \<noteq> a \<and> length h \<le> d \<and> d < length h'" if "res = Inr (Some d)" for d
  proof -
    from that res obtain df where "clean_frame now parse (h ! a) = Inr df" and d: "d = Suc (length h)"
      by (cases "clean_frame now parse (h ! a)") auto
    with new obtain c where "new = [c, df]" by blast
    with d a show ?thesis by (simp add: h')
  qed
  with a show ?thesis by (simp add: h' nth_append)
qed

text \<open>The theorem at \<open>example_raw\<close>.\<close>

theorem clean_data_leaves_input_witness:
  "snd (clean_data example_now example_parse (Some 0) [example_raw]) ! 0 = example_raw
   \<and> take 1 (snd (clean_data example_now example_parse (Some 0) [example_raw])) = [example_raw]
   \<and> fst (clean_data example_now example_parse (Some 0) [example_raw]) = Inr (Some 2)"
proof -
  have a: "0 < length [example_raw]" by simp
  from clean_data_leaves_input [OF a example_raw_run] example_raw_run
  show ?thesis by (simp add: prod_eq_iff)
qed

subsection \<open>C9: fixed before mobile\<close>



section \<open>Properties of the Fetcher\<close>

subsection \<open>C10: the observation status\<close>

lemma normalize_data_append:
  "normalize_data (xs @ ys) = normalize_data xs @ normalize_data ys"
  by (induction xs) (simp_all split: sum.splits)



subsection \<open>C7: the indicator identifier\<close>







subsection \<open>C4: the paged retrieval\<close>

lemma full_pageD:
  assumes "full_page r"
  shows "\<exists>meta rest. r = Body (JArr (meta # JArr (page_records r) # rest))"
proof -
  from assms have "page_records r \<noteq> []"
    by (auto simp add: full_page_def per_page_def)
  then show ?thesis
    by (auto simp add: page_records_def split: response.splits jval.splits list.splits)
qed

lemma fetch_loop_full:
  assumes "full_page (get page)"
  shows "fetch_loop get page all_data = fetch_loop get (page + 1) (all_data @ page_records (get page))"
proof -
  from full_pageD [OF assms] obtain meta rest where
    r: "get page = Body (JArr (meta # JArr (page_records (get page)) # rest))" by blast
  from assms have len: "\<not> length (page_records (get page)) < per_page"
    and ne: "page_records (get page) \<noteq> []"
    by (auto simp add: full_page_def per_page_def)
  show ?thesis
    by (subst fetch_loop.simps, subst r)
      (simp add: py_len_def subscript1_def truthy_def iterate_def len ne)
qed

lemma fetch_loop_skip:
  assumes "\<forall>p. page \<le> p \<and> p < page + n \<longrightarrow> full_page (get p)"
  shows "fetch_loop get page all_data =
         fetch_loop get (page + n)
           (all_data @ concat (map (\<lambda>p. page_records (get p)) [page..<page + n]))"
  using assms
proof (induction n)
  case 0
  show ?case by simp
next
  case (Suc n)
  then have "fetch_loop get page all_data =
         fetch_loop get (page + n)
           (all_data @ concat (map (\<lambda>p. page_records (get p)) [page..<page + n]))"
    by simp
  also from Suc.prems have "full_page (get (page + n))" by simp
  then have "fetch_loop get (page + n)
           (all_data @ concat (map (\<lambda>p. page_records (get p)) [page..<page + n])) =
     fetch_loop get (page + n + 1)
           ((all_data @ concat (map (\<lambda>p. page_records (get p)) [page..<page + n]))
              @ page_records (get (page + n)))"
    by (rule fetch_loop_full)
  finally show ?case by simp
qed

lemma fetch_loop_request_failed:
  "get page = RequestFailed \<Longrightarrow> fetch_loop get page all_data = Some (Inr all_data)"
  by (subst fetch_loop.simps) simp

lemma fetch_loop_short_payload:
  assumes "get page = Body (JArr xs)" and "length xs < 2 \<or> xs ! 1 = JNull \<or> xs ! 1 = JArr []"
  shows "fetch_loop get page all_data = Some (Inr all_data)"
  using assms
  by (subst fetch_loop.simps) (auto simp add: py_len_def subscript1_def truthy_def)

lemma fetch_loop_last_page:
  assumes "get page = Body (JArr (meta # JArr items # rest))" and "items \<noteq> []"
    and "length items < per_page"
  shows "fetch_loop get page all_data = Some (Inr (all_data @ items))"
  using assms
  by (subst fetch_loop.simps) (simp add: py_len_def subscript1_def truthy_def iterate_def)

text \<open>If the loop ends, some page from the current one on is not full.\<close>

lemma fetch_loop_returns:
  assumes "fetch_loop get page all_data = Some r"
  shows "\<exists>k \<ge> page. \<not> full_page (get k)"
proof (rule fetch_loop.raw_induct
    [where P = "\<lambda>get page all_data r. \<exists>k \<ge> page. \<not> full_page (get k)", OF _ assms])
  fix f :: "(nat \<Rightarrow> response) \<Rightarrow> nat \<Rightarrow> jval list \<Rightarrow> (exn + jval list) option"
    and get :: "nat \<Rightarrow> response" and page :: nat and all_data :: "jval list"
    and r :: "exn + jval list"
  assume IH: "\<And>get page all_data r. f get page all_data = Some r \<Longrightarrow> \<exists>k \<ge> page. \<not> full_page (get k)"
  assume eq: "(case get page of
        RequestFailed \<Rightarrow> Some (Inr all_data)
      | Body response_data \<Rightarrow>
          (case py_len response_data of
             Inl e \<Rightarrow> Some (Inl e)
           | Inr n \<Rightarrow>
               if n < 2 then Some (Inr all_data)
               else
                 (case subscript1 response_data of
                    Inl e \<Rightarrow> Some (Inl e)
                  | Inr data_batch \<Rightarrow>
                      if \<not> truthy data_batch then Some (Inr all_data)
                      else
                        (case iterate data_batch of
                           Inl e \<Rightarrow> Some (Inl e)
                         | Inr items \<Rightarrow>
                             if length items < per_page then Some (Inr (all_data @ items))
                             else f get (page + 1) (all_data @ items))))) = Some r"
  show "\<exists>k \<ge> page. \<not> full_page (get k)"
  proof (cases "full_page (get page)")
    case False
    then show ?thesis by blast
  next
    case True
    from full_pageD [OF True] obtain meta rest where
      r: "get page = Body (JArr (meta # JArr (page_records (get page)) # rest))" by blast
    from True have len: "\<not> length (page_records (get page)) < per_page"
      and ne: "page_records (get page) \<noteq> []"
      by (auto simp add: full_page_def per_page_def)
    from eq have "f get (page + 1) (all_data @ page_records (get page)) = Some r"
      by (subst (asm) r) (simp add: py_len_def subscript1_def truthy_def iterate_def len ne)
    from IH [OF this] obtain k where "page + 1 \<le> k" "\<not> full_page (get k)" by blast
    then have "page \<le> k \<and> \<not> full_page (get k)" by simp
    then show ?thesis by blast
  qed
qed

text \<open>
  C4: let the pages before page \<open>k\<close> be full. If the request for page \<open>k\<close> fails, or
  its body has fewer than two elements, or its record list is null or empty,
  \<open>fetch_data\<close> returns the records of the pages before \<open>k\<close>, in order. If page
  \<open>k\<close> has records, but fewer than 1000, \<open>fetch_data\<close> returns the records of the
  pages up to \<open>k\<close>, in order. If every page is full, \<open>fetch_data\<close> does not return.
\<close>

theorem fetch_data_pages:
  assumes k: "1 \<le> k"
    and full: "\<forall>p. 1 \<le> p \<and> p < k \<longrightarrow> full_page (api indicator_id start_year end_year p)"
  shows "(api indicator_id start_year end_year k = RequestFailed \<longrightarrow>
            fetch_data api indicator_id start_year end_year =
              Some (Inr (concat (map (\<lambda>p. page_records (api indicator_id start_year end_year p)) [1..<k]))))
       \<and> (\<forall>xs. api indicator_id start_year end_year k = Body (JArr xs) \<and>
               (length xs < 2 \<or> xs ! 1 = JNull \<or> xs ! 1 = JArr []) \<longrightarrow>
            fetch_data api indicator_id start_year end_year =
              Some (Inr (concat (map (\<lambda>p. page_records (api indicator_id start_year end_year p)) [1..<k]))))
       \<and> (\<forall>meta items rest. api indicator_id start_year end_year k = Body (JArr (meta # JArr items # rest)) \<and>
               items \<noteq> [] \<and> length items < 1000 \<longrightarrow>
            fetch_data api indicator_id start_year end_year =
              Some (Inr (concat (map (\<lambda>p. page_records (api indicator_id start_year end_year p)) [1..<k])
                         @ items)))
       \<and> ((\<forall>p \<ge> 1. full_page (api indicator_id start_year end_year p)) \<longrightarrow>
            fetch_data api indicator_id start_year end_year = None)"
proof -
  let ?get = "api indicator_id start_year end_year"
  let ?acc = "concat (map (\<lambda>p. page_records (?get p)) [1..<k])"
  define n where "n = k - 1"
  with k have n: "k = 1 + n" by simp
  from full have "\<forall>p. 1 \<le> p \<and> p < 1 + n \<longrightarrow> full_page (?get p)"
    by (simp add: n)
  from fetch_loop_skip [OF this, of "[]"]
  have skip: "fetch_data api indicator_id start_year end_year = fetch_loop ?get k ?acc"
    by (simp add: fetch_data_def n)
  have "fetch_data api indicator_id start_year end_year = None"
    if all: "\<forall>p \<ge> 1. full_page (?get p)"
  proof (rule ccontr)
    assume "fetch_data api indicator_id start_year end_year \<noteq> None"
    then obtain r where "fetch_loop ?get 1 [] = Some r"
      by (auto simp add: fetch_data_def)
    from fetch_loop_returns [OF this] all show False by blast
  qed
  then show ?thesis
    by (auto simp add: skip fetch_loop_request_failed fetch_loop_short_payload
        fetch_loop_last_page per_page_def)
qed

text \<open>The theorem at \<open>example_api\<close>: 1000 records, then one.\<close>

theorem fetch_data_pages_witness:
  "full_page (example_api ''IT.NET.USER.ZS'' 2000 2024 1)
   \<and> fetch_data example_api ''IT.NET.USER.ZS'' 2000 2024 =
       Some (Inr (replicate 1000 example_record @ [example_record]))"
proof -
  have full: "full_page (example_api ''IT.NET.USER.ZS'' 2000 2024 1)"
    by (simp add: full_page_def page_records_def example_api_def per_page_def)
  then have pre: "\<forall>p. 1 \<le> p \<and> p < 2 \<longrightarrow> full_page (example_api ''IT.NET.USER.ZS'' 2000 2024 p)"
    by (auto simp add: less_Suc_eq numeral_2_eq_2)
  have k: "(1::nat) \<le> 2" by simp
  have last: "example_api ''IT.NET.USER.ZS'' 2000 2024 2 = Body (JArr (JObj [] # JArr [example_record] # []))"
    by (simp add: example_api_def)
  have acc: "concat (map (\<lambda>p. page_records (example_api ''IT.NET.USER.ZS'' 2000 2024 p)) [Suc 0..<2])
      = replicate 1000 example_record"
  proof -
    have "[Suc 0..<2] = [Suc 0]" by (simp add: upt_rec)
    then show ?thesis by (simp add: page_records_def example_api_def)
  qed
  from fetch_data_pages [of 2 example_api "''IT.NET.USER.ZS''" 2000 2024, OF k pre] last full
  show ?thesis
    by (simp add: acc)
qed

section \<open>Properties of the Visualizer\<close>

subsection \<open>Sorting\<close>

lemma unique_set: "set (unique s) = set s"
  using keep_first_keys [of "\<lambda>x. x" "[]" s] by (simp add: unique_def)

lemma insert_left_sorted:
  assumes "x \<noteq> None" "\<forall>y \<in> set ys. y \<noteq> None" "sorted_wrt (\<lambda>a b. the b \<le> the a) ys"
  shows "sorted_wrt (\<lambda>a b. the b \<le> the a) (insert_left x ys) \<and>
         set (insert_left x ys) = insert x (set ys)"
  using assms
proof (induction ys)
  case Nil
  show ?case by simp
next
  case (Cons y ys)
  then obtain a b where ab: "x = Some a" "y = Some b" by auto
  show ?case
  proof (cases "a < b")
    case True
    with Cons ab show ?thesis
      by (auto simp add: float_lt_def)
  next
    case False
    with Cons ab show ?thesis
      by (fastforce simp add: float_lt_def)
  qed
qed

lemma foldl_insert_left:
  assumes "\<forall>y \<in> set xs \<union> set acc. y \<noteq> None" "sorted_wrt (\<lambda>a b. the b \<le> the a) acc"
  shows "sorted_wrt (\<lambda>a b. the b \<le> the a) (foldl (\<lambda>acc x. insert_left x acc) acc xs) \<and>
         set (foldl (\<lambda>acc x. insert_left x acc) acc xs) = set xs \<union> set acc"
  using assms
proof (induction xs arbitrary: acc)
  case Nil
  then show ?case by simp
next
  case (Cons x xs)
  from Cons.prems have "x \<noteq> None" "\<forall>y \<in> set acc. y \<noteq> None" by auto
  from insert_left_sorted [OF this Cons.prems(2)]
  have s: "sorted_wrt (\<lambda>a b. the b \<le> the a) (insert_left x acc)"
    and e: "set (insert_left x acc) = insert x (set acc)" by simp_all
  from Cons.prems e have "\<forall>y \<in> set xs \<union> set (insert_left x acc). y \<noteq> None" by auto
  from Cons.IH [OF this s] e show ?case by auto
qed

text \<open>On years without NaN, the last element of the sorted list is the greatest year.\<close>

lemma sorted_py_last:
  assumes "\<forall>y \<in> set xs. y \<noteq> None" "xs \<noteq> []"
  shows "sorted_py xs \<noteq> [] \<and> last (sorted_py xs) \<in> set xs \<and>
         (\<forall>y \<in> set xs. the y \<le> the (last (sorted_py xs)))"
proof -
  let ?l = "foldl (\<lambda>acc x. insert_left x acc) [] xs"
  from foldl_insert_left [of xs "[]"] assms(1)
  have s: "sorted_wrt (\<lambda>a b. the b \<le> the a) ?l" and e: "set ?l = set xs" by simp_all
  from e assms(2) have ne: "?l \<noteq> []" by auto
  then obtain z zs where l: "?l = z # zs" by (cases ?l) auto
  have "last (sorted_py xs) = z" by (simp add: sorted_py_def l)
  moreover from s l have "\<forall>y \<in> set ?l. the y \<le> the z" by auto
  moreover have "z \<in> set ?l" by (simp add: l)
  ultimately show ?thesis using e ne by (simp add: sorted_py_def)
qed

lemma insert_desc_mset: "mset (insert_desc p qs) = add_mset p (mset qs)"
  by (induction qs) simp_all

lemma insert_desc_sorted:
  assumes "row_value p \<noteq> None" "\<forall>q \<in> set qs. row_value q \<noteq> None"
    "sorted_wrt (\<lambda>a b. the (row_value b) \<le> the (row_value a)) qs"
  shows "sorted_wrt (\<lambda>a b. the (row_value b) \<le> the (row_value a)) (insert_desc p qs)"
  using assms
proof (induction qs)
  case Nil
  show ?case by simp
next
  case (Cons q qs)
  then obtain a b where ab: "row_value p = Some a" "row_value q = Some b" by auto
  have set: "set (insert_desc p qs) = insert p (set qs)"
    using insert_desc_mset [of p qs] by (metis set_mset_add_mset_insert set_mset_mset)
  show ?case
  proof (cases "b < a")
    case True
    with Cons ab show ?thesis by (auto simp add: float_lt_def)
  next
    case False
    with Cons ab set show ?thesis by (auto simp add: float_lt_def)
  qed
qed

lemma foldr_insert_desc:
  assumes "\<forall>q \<in> set qs. row_value q \<noteq> None"
  shows "mset (foldr insert_desc qs []) = mset qs \<and>
         sorted_wrt (\<lambda>a b. the (row_value b) \<le> the (row_value a)) (foldr insert_desc qs [])"
  using assms
proof (induction qs)
  case Nil
  show ?case by simp
next
  case (Cons q qs)
  then have m: "mset (foldr insert_desc qs []) = mset qs"
    and s: "sorted_wrt (\<lambda>a b. the (row_value b) \<le> the (row_value a)) (foldr insert_desc qs [])"
    by simp_all
  from m have "set (foldr insert_desc qs []) = set qs" by (metis set_mset_mset)
  with Cons.prems have "\<forall>x \<in> set (foldr insert_desc qs []). row_value x \<noteq> None" by simp
  with Cons.prems s have "sorted_wrt (\<lambda>a b. the (row_value b) \<le> the (row_value a))
     (insert_desc q (foldr insert_desc qs []))"
    by (intro insert_desc_sorted) simp_all
  with m show ?case by (simp add: insert_desc_mset)
qed

text \<open>\<open>sort_values_desc\<close> permutes the rows, values descending and NaN last.\<close>

lemma sort_values_desc_sorted:
  "mset (sort_values_desc df) = mset df \<and>
   sorted_wrt (\<lambda>a b. row_value b = None \<or>
                 (row_value a \<noteq> None \<and> the (row_value b) \<le> the (row_value a)))
     (sort_values_desc df)"
proof -
  let ?some = "filter (\<lambda>p. row_value p \<noteq> None) df" and ?nan = "filter (\<lambda>p. row_value p = None) df"
  have some: "\<forall>q \<in> set ?some. row_value q \<noteq> None" by simp
  from foldr_insert_desc [OF some] have m: "mset (foldr insert_desc ?some []) = mset ?some"
    and s: "sorted_wrt (\<lambda>a b. the (row_value b) \<le> the (row_value a)) (foldr insert_desc ?some [])"
    by simp_all
  from m have set: "set (foldr insert_desc ?some []) = set ?some" by (metis set_mset_mset)
  have "mset (sort_values_desc df) = mset (foldr insert_desc ?some []) + mset ?nan"
    by (simp only: sort_values_desc_def mset_append)
  also have "\<dots> = mset ?some + mset ?nan"
    by (simp only: m)
  also have "\<dots> = mset df"
    by (induction df) simp_all
  finally have "mset (sort_values_desc df) = mset df" .
  moreover have "sorted_wrt (\<lambda>a b. row_value b = None \<or>
                 (row_value a \<noteq> None \<and> the (row_value b) \<le> the (row_value a)))
     (sort_values_desc df)"
    unfolding sort_values_desc_def sorted_wrt_append
  proof (intro conjI ballI)
    show "sorted_wrt (\<lambda>a b. row_value b = None \<or>
                 (row_value a \<noteq> None \<and> the (row_value b) \<le> the (row_value a)))
            (foldr insert_desc ?some [])"
      using s set by (auto intro: sorted_wrt_mono_rel [rotated])
    show "sorted_wrt (\<lambda>a b. row_value b = None \<or>
                 (row_value a \<noteq> None \<and> the (row_value b) \<le> the (row_value a))) ?nan"
      by (induction df) auto
  next
    fix a b
    assume "b \<in> set ?nan"
    then show "row_value b = None \<or> (row_value a \<noteq> None \<and> the (row_value b) \<le> the (row_value a))"
      by simp
  qed
  ultimately show ?thesis by blast
qed

subsection \<open>C6: the fallback year of \<open>plot_top_countries\<close>\<close>

text \<open>
  When no Year of the table is NaN and the table has no row for the requested year, the
  chart is drawn for the greatest year of the table, from the rows of that year.
\<close>

lemma plot_top_countries_fallback:
  assumes nonan: "\<forall>p \<in> set df. row_year p \<noteq> None"
    and ne: "df \<noteq> []"
    and absent: "\<forall>p \<in> set df. row_year p \<noteq> year"
  shows "\<exists>m. (\<exists>p \<in> set df. row_year p = Some m) \<and> (\<forall>p \<in> set df. the (row_year p) \<le> m) \<and>
           plot_top_countries df year n =
             Some (draw (Some m) n (filter (\<lambda>p. row_year p = Some m) df))"
proof -
  let ?ys = "unique (map row_year df)"
  have eq: "float_eq (row_year p) y \<longleftrightarrow> row_year p = y" if "p \<in> set df" for p y
    using nonan that by (cases "row_year p"; cases y) (auto simp add: float_eq_def)
  have none: "filter (\<lambda>p. float_eq (row_year p) year) df = []"
    using absent by (auto simp add: filter_empty_conv eq)
  have ys: "\<forall>y \<in> set ?ys. y \<noteq> None" "?ys \<noteq> []"
    using nonan ne unique_set [of "map row_year df"] by auto
  from sorted_py_last [OF ys] have s: "sorted_py ?ys \<noteq> []"
    and l: "last (sorted_py ?ys) \<in> set ?ys"
    and mx: "\<forall>y \<in> set ?ys. the y \<le> the (last (sorted_py ?ys))" by simp_all
  from l ys(1) obtain m where m: "last (sorted_py ?ys) = Some m" by auto
  have f: "filter (\<lambda>p. float_eq (row_year p) (Some m)) df = filter (\<lambda>p. row_year p = Some m) df"
    by (rule filter_cong) (simp_all add: eq)
  from l m have "\<exists>p \<in> set df. row_year p = Some m"
    by (auto simp add: unique_set)
  moreover from mx m have "\<forall>p \<in> set df. the (row_year p) \<le> m"
    by (simp add: unique_set)
  moreover have "plot_top_countries df year n =
             Some (draw (Some m) n (filter (\<lambda>p. row_year p = Some m) df))"
    by (simp add: plot_top_countries_def Let_def none s m f)
  ultimately show ?thesis by blast
qed

text \<open>
  C6 asks for that fallback whenever some row has a Year. The code misses the case of a
  NaN among the years: in this table the row of 2019 has a Year and the other row has
  none, there is no row for 2020, and the year that \<open>plot_top_countries\<close> falls back to
  is NaN, not 2019. The chart has no bar.
\<close>

theorem fallback_picks_nan:
  "plot_top_countries
     [\<lparr>row_country = ''A'', row_year = Some 2019, row_value = Some 5\<rparr>,
      \<lparr>row_country = ''B'', row_year = None, row_value = Some 3\<rparr>]
     (Some 2020) 10
   = Some \<lparr>chart_year = None, chart_n = 10, bars = []\<rparr>"
  by (simp add: plot_top_countries_def float_eq_def float_lt_def unique_def sorted_py_def
      draw_def head_def sort_values_desc_def)

end
